theory Spec2Isabelle
  imports Main
begin

section \<open>Documents and the document store\<close>

text \<open>
  The server (\<^verbatim>\<open>index.js\<close>) keeps two collections, users and posts, in a document
  database. A stored reference is an ObjectId; it is identified by its string form, which
  is what \<^verbatim>\<open>id.toString()\<close> returns: 24 hexadecimal digits in lower case.
  Identifiers arriving in a request (path parameters, query parameters, body fields) are
  strings; the persistence layer casts them to ObjectIds when it stores them or looks them
  up. The two schema files are not part of the source at hand; the fields of the documents
  are those the handlers read and write.
\<close>

datatype objectId = ObjectId (toString: string)

text \<open>
  The cast of a request string to an ObjectId, as the persistence layer does it: a string of
  24 hexadecimal digits is accepted in either case and denotes the ObjectId whose string
  form is its lower-case spelling; any other string is rejected, and the rejection is an
  exception thrown into the handler.
\<close>

definition hexDigit :: "char \<Rightarrow> bool" where
  "hexDigit c = (c \<in> set ''0123456789abcdefABCDEF'')"

definition lowerHex :: "char \<Rightarrow> char" where
  "lowerHex c =
     (if c = CHR ''A'' then CHR ''a'' else if c = CHR ''B'' then CHR ''b''
      else if c = CHR ''C'' then CHR ''c'' else if c = CHR ''D'' then CHR ''d''
      else if c = CHR ''E'' then CHR ''e'' else if c = CHR ''F'' then CHR ''f'' else c)"

definition castObjectId :: "string \<Rightarrow> objectId option" where
  "castObjectId v =
     (if length v = 24 \<and> list_all hexDigit v then Some (ObjectId (map lowerHex v)) else None)"

text \<open>What a handler's \<^verbatim>\<open>catch\<close> can receive: a rejected cast (with the rejected
  value), or a \<^verbatim>\<open>TypeError\<close> from calling a method on null or undefined.\<close>

datatype exn = CastError string | TypeError

record user =
  user_id :: objectId
  username :: string
  email :: string
  password :: string
  profilePhoto :: "string option"

record comment =
  comment_id :: objectId
  comment_user :: objectId
  comment_text :: string
  createdAt :: nat

record post =
  post_id :: objectId
  title :: string
  description :: string
  post_image :: "string option"
  post_user :: objectId
  likes :: "objectId option list"
  comments :: "comment list"

text \<open>An entry of \<^verbatim>\<open>likes\<close> is a user reference or null (\<open>None\<close>). A collection is
  the list of its documents in insertion (natural) order.\<close>

record store =
  users :: "user list"
  posts :: "post list"

definition empty_store :: store where
  "empty_store = \<lparr>users = [], posts = []\<rparr>"

text \<open>
  What the handlers take from outside the store: the identifier and the timestamp that the
  schema layer gives a new document (\<^verbatim>\<open>_id\<close>, \<^verbatim>\<open>createdAt\<close>), and the two
  password functions \<^verbatim>\<open>bcrypt.hash\<close> and \<^verbatim>\<open>bcrypt.compare\<close>.
\<close>

record env =
  newId :: objectId
  now :: nat
  bcrypt_hash :: "string \<Rightarrow> string"
  bcrypt_compare :: "string \<Rightarrow> string \<Rightarrow> bool"

subsection \<open>Queries and updates of the persistence layer\<close>

text \<open>\<^verbatim>\<open>User.findOne(filter)\<close>, \<^verbatim>\<open>User.findById(id)\<close>, \<^verbatim>\<open>Post.findById(id)\<close>:
  the first document that matches, or null.\<close>

definition findOneUser :: "(user \<Rightarrow> bool) \<Rightarrow> user list \<Rightarrow> user option" where
  "findOneUser f us = List.find f us"

definition findUserById :: "objectId \<Rightarrow> user list \<Rightarrow> user option" where
  "findUserById i us = List.find (\<lambda>u. user_id u = i) us"

definition findPostById :: "objectId \<Rightarrow> post list \<Rightarrow> post option" where
  "findPostById i ps = List.find (\<lambda>p. post_id p = i) ps"

text \<open>\<^verbatim>\<open>post.save()\<close> on a document that was read from the collection: the stored
  document with the same \<^verbatim>\<open>_id\<close> is replaced.\<close>

fun savePost :: "post \<Rightarrow> post list \<Rightarrow> post list" where
  "savePost p [] = []"
| "savePost p (q # qs) = (if post_id q = post_id p then p # qs else q # savePost p qs)"

text \<open>\<^verbatim>\<open>Post.deleteOne({ _id: id })\<close>: removes the first matching document and
  reports \<^verbatim>\<open>deletedCount\<close>.\<close>

fun deleteOne :: "objectId \<Rightarrow> post list \<Rightarrow> nat \<times> post list" where
  "deleteOne i [] = (0, [])"
| "deleteOne i (q # qs) =
     (if post_id q = i then (1, qs)
      else (case deleteOne i qs of (n, qs') \<Rightarrow> (n, q # qs')))"

subsection \<open>Populate: expanding a user reference at read time\<close>

record user_view =
  view_id :: objectId
  view_username :: string
  view_profilePhoto :: "string option"

record populated_comment =
  pc_id :: objectId
  pc_user :: "user_view option"
  pc_text :: string
  pc_createdAt :: nat

record populated_post =
  pp_id :: objectId
  pp_title :: string
  pp_description :: string
  pp_image :: "string option"
  pp_user :: "user_view option"
  pp_likes :: "objectId option list"
  pp_comments :: "populated_comment list"

text \<open>The selection \<^verbatim>\<open>"username profilePhoto"\<close> (the \<^verbatim>\<open>_id\<close> always comes with it).\<close>

definition select_user :: "user \<Rightarrow> user_view" where
  "select_user u =
     \<lparr>view_id = user_id u, view_username = username u, view_profilePhoto = profilePhoto u\<rparr>"

text \<open>A reference to a user that is not stored populates to null.\<close>

definition populate_user :: "user list \<Rightarrow> objectId \<Rightarrow> user_view option" where
  "populate_user us i = map_option select_user (findUserById i us)"

definition populate_comment :: "user list \<Rightarrow> comment \<Rightarrow> populated_comment" where
  "populate_comment us c =
     \<lparr>pc_id = comment_id c, pc_user = populate_user us (comment_user c),
      pc_text = comment_text c, pc_createdAt = createdAt c\<rparr>"

definition populate_post :: "user list \<Rightarrow> post \<Rightarrow> populated_post" where
  "populate_post us p =
     \<lparr>pp_id = post_id p, pp_title = title p, pp_description = description p,
      pp_image = post_image p, pp_user = populate_user us (post_user p),
      pp_likes = likes p, pp_comments = map (populate_comment us) (comments p)\<rparr>"

section \<open>Responses\<close>

text \<open>The comment object that the comment handler builds for its response.\<close>

record comment_reply =
  cr_id :: objectId
  cr_user :: user_view
  cr_text :: string
  cr_createdAt :: nat

text \<open>One constructor for each shape of JSON body that the handlers send. Where the body
  is built from a caught exception, the constructor holds the exception:
  \<open>Success_error_message\<close> is \<^verbatim>\<open>{ success, error: error.message }\<close>,
  \<open>Success_error_prefixed\<close> is \<^verbatim>\<open>{ success, error: "..." + err.message }\<close> and
  \<open>Thrown\<close> is \<^verbatim>\<open>json(err)\<close>.\<close>

datatype body =
    Success_error bool string
  | Success_error_message bool exn
  | Success_error_prefixed bool string exn
  | Thrown exn
  | Success_message bool string
  | Success_data bool user
  | Success_message_user bool string user
  | Success_message_post bool string post
  | Message_success_data string bool "populated_post list"
  | Message string
  | Error string
  | Post_document post
  | Message_comment string comment_reply

datatype response = Response (status: nat) (body: body)

text \<open>JavaScript's \<^verbatim>\<open>!v\<close> on a request field that is a string or is missing.\<close>

definition falsy :: "string option \<Rightarrow> bool" where
  "falsy v = (case v of None \<Rightarrow> True | Some s \<Rightarrow> s = [])"

section \<open>Request handlers\<close>

text \<open>Each handler maps the store and its request to the response and the store afterwards.
  An exception thrown inside a handler's \<^verbatim>\<open>try\<close> block ends it in the
  \<^verbatim>\<open>catch\<close> branch, with status 500 and nothing saved.\<close>

subsection \<open>\<^verbatim>\<open>GET /getUser/:id\<close>\<close>

definition getUser :: "store \<Rightarrow> string \<Rightarrow> response \<times> store" where
  "getUser s i =
     (case castObjectId i of
        None \<Rightarrow> (Response 500 (Success_error False ''Internal Server Error''), s)
      | Some uid \<Rightarrow>
          (case findOneUser (\<lambda>u. user_id u = uid) (users s) of
             None \<Rightarrow> (Response 404 (Success_error False ''User not found''), s)
           | Some u \<Rightarrow> (Response 200 (Success_data True u), s)))"

subsection \<open>\<^verbatim>\<open>POST /register\<close>\<close>

definition register :: "env \<Rightarrow> store \<Rightarrow> string \<Rightarrow> string \<Rightarrow> string \<Rightarrow> string option
    \<Rightarrow> response \<times> store" where
  "register e s uname mail pw photo =
     (case findOneUser (\<lambda>u. email u = mail \<or> username u = uname) (users s) of
        Some existingUser \<Rightarrow>
          (Response 409 (Success_error False ''Username or email already exists''), s)
      | None \<Rightarrow>
          (let newUser = \<lparr>user_id = newId e, username = uname, email = mail,
                 password = bcrypt_hash e pw, profilePhoto = photo\<rparr>
           in (Response 201 (Success_message_user True ''User registered successfully'' newUser),
               s\<lparr>users := users s @ [newUser]\<rparr>)))"

subsection \<open>\<^verbatim>\<open>POST /login\<close>\<close>

definition login :: "env \<Rightarrow> store \<Rightarrow> string \<Rightarrow> string \<Rightarrow> response \<times> store" where
  "login e s uname pw =
     (case findOneUser (\<lambda>u. username u = uname) (users s) of
        None \<Rightarrow> (Response 401 (Success_error False ''Invalid username or password''), s)
      | Some u \<Rightarrow>
          (if \<not> bcrypt_compare e pw (password u)
           then (Response 401 (Success_error False ''Invalid username or password''), s)
           else (Response 200 (Success_message_user True ''Login successful'' u), s)))"

subsection \<open>\<^verbatim>\<open>POST /CreatePost\<close>\<close>

text \<open>A new post has no likes and no comments: the request gives neither field. The owner
  is cast to a reference; a rejected cast fails the save.\<close>

definition createPost :: "env \<Rightarrow> store \<Rightarrow> string \<Rightarrow> string \<Rightarrow> string \<Rightarrow> string option
    \<Rightarrow> response \<times> store" where
  "createPost e s ttl descr uid img =
     (case castObjectId uid of
        None \<Rightarrow>
          (Response 500 (Success_error_prefixed False ''Error creating post: '' (CastError uid)), s)
      | Some owner \<Rightarrow>
          (let newPost = \<lparr>post_id = newId e, title = ttl, description = descr, post_image = img,
                 post_user = owner, likes = [], comments = []\<rparr>
           in (Response 201 (Success_message_post True ''Post created successfully'' newPost),
               s\<lparr>posts := posts s @ [newPost]\<rparr>)))"

subsection \<open>\<^verbatim>\<open>GET /getPosts\<close>\<close>

definition getPosts :: "store \<Rightarrow> string option \<Rightarrow> response \<times> store" where
  "getPosts s q =
     (if falsy q then (Response 400 (Success_error False ''User ID is required''), s)
      else
        (case castObjectId (the q) of
           None \<Rightarrow> (Response 500 (Success_error False ''Internal Server Error''), s)
         | Some owner \<Rightarrow>
             (Response 200 (Message_success_data ''Successfull'' True
                (map (populate_post (users s))
                   (filter (\<lambda>p. post_user p = owner) (posts s)))), s)))"

subsection \<open>\<^verbatim>\<open>DELETE /deletePost/:id\<close>\<close>

definition deletePost :: "store \<Rightarrow> string \<Rightarrow> response \<times> store" where
  "deletePost s i =
     (case castObjectId i of
        None \<Rightarrow> (Response 500 (Success_error_message False (CastError i)), s)
      | Some pid \<Rightarrow>
          (case deleteOne pid (posts s) of
             (deletedCount, ps) \<Rightarrow>
               (if deletedCount = 0
                then (Response 404 (Success_message False ''Post not found''), s\<lparr>posts := ps\<rparr>)
                else (Response 200 (Success_message True ''Post deleted successfully''),
                      s\<lparr>posts := ps\<rparr>))))"

subsection \<open>\<^verbatim>\<open>POST /posts/:id/like\<close>\<close>

text \<open>The body field \<^verbatim>\<open>userId\<close> is a string or is missing (\<open>None\<close>, JavaScript's
  undefined).

  \<^verbatim>\<open>post.likes.includes(userId)\<close> compares with loose equality: a string equals a
  reference when it is the reference's string form, and never equals null; undefined equals
  null and no reference.\<close>

definition includes_id :: "objectId option list \<Rightarrow> string option \<Rightarrow> bool" where
  "includes_id ids v =
     (case v of
        None \<Rightarrow> None \<in> set ids
      | Some s \<Rightarrow> Some s \<in> set (map (map_option toString) ids))"

text \<open>\<^verbatim>\<open>post.likes.filter((id) => id.toString() !== userId.toString())\<close>: the callback
  runs on the elements in order and throws on a null element, and on any element when
  \<^verbatim>\<open>userId\<close> is undefined.\<close>

fun unlike_filter :: "objectId option list \<Rightarrow> string option \<Rightarrow> exn + objectId option list" where
  "unlike_filter [] v = Inr []"
| "unlike_filter (None # ids) v = Inl TypeError"
| "unlike_filter (Some i # ids) None = Inl TypeError"
| "unlike_filter (Some i # ids) (Some s) =
     (case unlike_filter ids (Some s) of
        Inl err \<Rightarrow> Inl err
      | Inr kept \<Rightarrow> Inr (if toString i \<noteq> s then Some i # kept else kept))"

text \<open>\<^verbatim>\<open>post.likes.push(userId)\<close>: the value is cast to a reference; undefined is
  stored as null.\<close>

definition push_like :: "objectId option list \<Rightarrow> string option \<Rightarrow> exn + objectId option list" where
  "push_like ids v =
     (case v of
        None \<Rightarrow> Inr (ids @ [None])
      | Some s \<Rightarrow>
          (case castObjectId s of
             None \<Rightarrow> Inl (CastError s)
           | Some i \<Rightarrow> Inr (ids @ [Some i])))"

definition likePost :: "store \<Rightarrow> string \<Rightarrow> string option \<Rightarrow> response \<times> store" where
  "likePost s postId userId =
     (case castObjectId postId of
        None \<Rightarrow> (Response 500 (Thrown (CastError postId)), s)
      | Some pid \<Rightarrow>
          (case findPostById pid (posts s) of
             None \<Rightarrow> (Response 404 (Message ''Post not found.''), s)
           | Some p \<Rightarrow>
               (let alreadyLiked = includes_id (likes p) userId
                in (case (if alreadyLiked then unlike_filter (likes p) userId
                          else push_like (likes p) userId) of
                      Inl err \<Rightarrow> (Response 500 (Thrown err), s)
                    | Inr newLikes \<Rightarrow>
                        (let p' = p\<lparr>likes := newLikes\<rparr>
                         in (Response 200 (Post_document p'),
                             s\<lparr>posts := savePost p' (posts s)\<rparr>))))))"

subsection \<open>\<^verbatim>\<open>POST /comment/:id\<close>\<close>

definition addComment :: "env \<Rightarrow> store \<Rightarrow> string \<Rightarrow> string option \<Rightarrow> string option
    \<Rightarrow> response \<times> store" where
  "addComment e s postID userId txt =
     (if falsy userId \<or> falsy txt
      then (Response 400 (Error ''User ID and comment text are required''), s)
      else
        (case castObjectId postID of
           None \<Rightarrow> (Response 500 (Error ''Internal server error''), s)
         | Some pid \<Rightarrow>
        (case findPostById pid (posts s) of
           None \<Rightarrow> (Response 404 (Error ''Post does not exist''), s)
         | Some p \<Rightarrow>
        (case castObjectId (the userId) of
           None \<Rightarrow> (Response 500 (Error ''Internal server error''), s)
         | Some uid \<Rightarrow>
        (case findUserById uid (users s) of
           None \<Rightarrow> (Response 404 (Error ''User not found''), s)
         | Some u \<Rightarrow>
             (let newComment = \<lparr>comment_id = newId e, comment_user = uid,
                    comment_text = the txt, createdAt = now e\<rparr>;
                  p' = p\<lparr>comments := comments p @ [newComment]\<rparr>;
                  s' = s\<lparr>posts := savePost p' (posts s)\<rparr>;
                  populated = map (populate_comment (users s')) (comments p');
                  addedComment = last populated
              in (case pc_user addedComment of
                    None \<Rightarrow> (Response 500 (Error ''Internal server error''), s')
                  | Some author \<Rightarrow>
                      (Response 201 (Message_comment ''Comment added successfully''
                         \<lparr>cr_id = pc_id addedComment, cr_user = author,
                          cr_text = pc_text addedComment,
                          cr_createdAt = pc_createdAt addedComment\<rparr>), s'))))))))"

section \<open>The server as a transition system\<close>

datatype request =
    GetUser string
  | Register string string string "string option"
  | Login string string
  | CreatePost string string string "string option"
  | GetPosts "string option"
  | DeletePost string
  | LikePost string "string option"
  | AddComment string "string option" "string option"

fun handle :: "env \<Rightarrow> store \<Rightarrow> request \<Rightarrow> response \<times> store" where
  "handle e s (GetUser i) = getUser s i"
| "handle e s (Register uname mail pw photo) = register e s uname mail pw photo"
| "handle e s (Login uname pw) = login e s uname pw"
| "handle e s (CreatePost ttl descr uid img) = createPost e s ttl descr uid img"
| "handle e s (GetPosts q) = getPosts s q"
| "handle e s (DeletePost i) = deletePost s i"
| "handle e s (LikePost postId userId) = likePost s postId userId"
| "handle e s (AddComment postID userId txt) = addComment e s postID userId txt"

text \<open>The stores the server can reach from the empty database.\<close>

inductive reachable :: "store \<Rightarrow> bool" where
  reachable_empty: "reachable empty_store"
| reachable_step: "reachable s \<Longrightarrow> reachable (snd (handle e s r))"

section \<open>Invariants of the store\<close>

text \<open>No post holds a user reference twice among its likes.\<close>

definition likes_inv :: "store \<Rightarrow> bool" where
  "likes_inv s = list_all (\<lambda>p. distinct (likes p)) (posts s)"

text \<open>The database keeps \<^verbatim>\<open>_id\<close> unique within the posts collection.\<close>

definition unique_post_ids :: "store \<Rightarrow> bool" where
  "unique_post_ids s = distinct (map post_id (posts s))"

section \<open>Example data\<close>

text \<open>Concrete documents and stores on which the results below are evaluated. The
  upper-case strings are other spellings of the same identifiers.\<close>

definition alice_id :: string where "alice_id = ''650000000000000000000a01''"
definition bob_id :: string where "bob_id = ''650000000000000000000a02''"
definition post1_id :: string where "post1_id = ''650000000000000000000b01''"
definition post2_id :: string where "post2_id = ''650000000000000000000b02''"
definition created_id :: string where "created_id = ''650000000000000000000c01''"
definition alice_upper :: string where "alice_upper = ''650000000000000000000A01''"
definition bob_upper :: string where "bob_upper = ''650000000000000000000A02''"
definition post1_upper :: string where "post1_upper = ''650000000000000000000B01''"

definition ex_env :: env where
  "ex_env = \<lparr>newId = ObjectId created_id, now = 1700000000,
     bcrypt_hash = (\<lambda>p. ''$2b$10$'' @ p), bcrypt_compare = (\<lambda>p h. h = ''$2b$10$'' @ p)\<rparr>"

definition alice :: user where
  "alice = \<lparr>user_id = ObjectId alice_id, username = ''alice'', email = ''alice@example.org'',
     password = ''$2b$10$wonderland'', profilePhoto = Some ''uploads/profilePhoto-1700000000.png''\<rparr>"

definition bob :: user where
  "bob = \<lparr>user_id = ObjectId bob_id, username = ''bob'', email = ''bob@example.org'',
     password = ''$2b$10$builder'', profilePhoto = None\<rparr>"

definition post1 :: post where
  "post1 = \<lparr>post_id = ObjectId post1_id, title = ''Hello'', description = ''First post'',
     post_image = None, post_user = ObjectId alice_id, likes = [Some (ObjectId bob_id)],
     comments = []\<rparr>"

definition ex_store :: store where
  "ex_store = \<lparr>users = [alice, bob], posts = [post1]\<rparr>"

text \<open>A post whose like sequence holds one user twice.\<close>

definition post_dup :: post where
  "post_dup = post1\<lparr>likes := [Some (ObjectId bob_id), Some (ObjectId alice_id),
     Some (ObjectId bob_id)]\<rparr>"

definition dup_store :: store where
  "dup_store = \<lparr>users = [alice, bob], posts = [post_dup]\<rparr>"

text \<open>A post with a null entry among its likes, as a like request without
  \<^verbatim>\<open>userId\<close> leaves it.\<close>

definition post_null :: post where
  "post_null = post1\<lparr>likes := [Some (ObjectId bob_id), None]\<rparr>"

definition null_store :: store where
  "null_store = \<lparr>users = [alice, bob], posts = [post_null]\<rparr>"

text \<open>A post that already has a comment.\<close>

definition comment1 :: comment where
  "comment1 = \<lparr>comment_id = ObjectId ''650000000000000000000d01'',
     comment_user = ObjectId alice_id, comment_text = ''First'', createdAt = 1699999999\<rparr>"

definition post_commented :: post where
  "post_commented = post1\<lparr>comments := [comment1]\<rparr>"

definition commented_store :: store where
  "commented_store = \<lparr>users = [alice, bob], posts = [post_commented]\<rparr>"

text \<open>The store after one post has been created in the empty database; its owner is not a
  registered user.\<close>

definition created_store :: store where
  "created_store =
     snd (handle ex_env empty_store (CreatePost ''Hello'' ''First post'' alice_id None))"

text \<open>The store after that post has been liked twice by one user, whose id is spelled in
  lower case the first time and in upper case the second.\<close>

definition liked_twice_store :: store where
  "liked_twice_store =
     snd (handle ex_env
           (snd (handle ex_env created_store (LikePost created_id (Some bob_id))))
           (LikePost created_id (Some bob_upper)))"

lemmas ex_defs = created_id_def alice_id_def bob_id_def post1_id_def post2_id_def
  alice_upper_def bob_upper_def post1_upper_def ex_env_def
  alice_def bob_def post1_def ex_store_def post_dup_def dup_store_def post_null_def
  null_store_def comment1_def post_commented_def commented_store_def empty_store_def


section \<open>Facts about the cast\<close>

lemma castObjectId_alice: "castObjectId alice_id = Some (ObjectId alice_id)"
  by (simp add: castObjectId_def hexDigit_def lowerHex_def ex_defs)

lemma castObjectId_bob: "castObjectId bob_id = Some (ObjectId bob_id)"
  by (simp add: castObjectId_def hexDigit_def lowerHex_def ex_defs)

lemma castObjectId_post1: "castObjectId post1_id = Some (ObjectId post1_id)"
  by (simp add: castObjectId_def hexDigit_def lowerHex_def ex_defs)

lemma castObjectId_post2: "castObjectId post2_id = Some (ObjectId post2_id)"
  by (simp add: castObjectId_def hexDigit_def lowerHex_def ex_defs)

lemma castObjectId_created: "castObjectId created_id = Some (ObjectId created_id)"
  by (simp add: castObjectId_def hexDigit_def lowerHex_def ex_defs)

lemma castObjectId_alice_upper: "castObjectId alice_upper = Some (ObjectId alice_id)"
  by (simp add: castObjectId_def hexDigit_def lowerHex_def ex_defs)

lemma castObjectId_bob_upper: "castObjectId bob_upper = Some (ObjectId bob_id)"
  by (simp add: castObjectId_def hexDigit_def lowerHex_def ex_defs)

lemma castObjectId_post1_upper: "castObjectId post1_upper = Some (ObjectId post1_id)"
  by (simp add: castObjectId_def hexDigit_def lowerHex_def ex_defs)

lemma castObjectId_abc: "castObjectId ''abc'' = None"
  by (simp add: castObjectId_def)

lemma castObjectId_empty: "castObjectId [] = None"
  by (simp add: castObjectId_def)

lemmas ex_casts = castObjectId_alice castObjectId_bob castObjectId_post1 castObjectId_post2
  castObjectId_created castObjectId_alice_upper castObjectId_bob_upper
  castObjectId_post1_upper castObjectId_abc castObjectId_empty

section \<open>Facts about the persistence layer\<close>

lemma findPostById_Some_id: "findPostById i ps = Some p \<Longrightarrow> post_id p = i \<and> p \<in> set ps"
  by (auto simp: findPostById_def find_Some_iff)

lemma findPostById_None_iff: "findPostById i ps = None \<longleftrightarrow> i \<notin> post_id ` set ps"
  by (auto simp: findPostById_def find_None_iff)

lemma findPostById_savePost:
  "findPostById i ps = Some p \<Longrightarrow> post_id p' = i \<Longrightarrow> findPostById i (savePost p' ps) = Some p'"
  by (induction ps) (auto simp: findPostById_def split: if_splits)

lemma findPostById_savePost_other:
  "j \<noteq> post_id p' \<Longrightarrow> findPostById j (savePost p' ps) = findPostById j ps"
  by (induction ps) (auto simp: findPostById_def)

lemma set_savePost: "set (savePost p' ps) \<subseteq> insert p' (set ps)"
  by (induction ps) auto

lemma map_post_id_savePost: "map post_id (savePost p' ps) = map post_id ps"
  by (induction ps) auto

lemma fst_deleteOne: "fst (deleteOne i ps) = (if findPostById i ps = None then 0 else 1)"
  by (induction ps) (auto simp: findPostById_def split: prod.splits)

lemma snd_deleteOne_None: "findPostById i ps = None \<Longrightarrow> snd (deleteOne i ps) = ps"
  by (induction ps) (auto simp: findPostById_def split: prod.splits if_splits)

lemma snd_deleteOne_Some: "findPostById i ps = Some p \<Longrightarrow> snd (deleteOne i ps) = remove1 p ps"
proof (induction ps)
  case Nil
  then show ?case by (simp add: findPostById_def)
next
  case (Cons q qs)
  show ?case
  proof (cases "post_id q = i")
    case True
    with Cons.prems show ?thesis by (simp add: findPostById_def)
  next
    case False
    with Cons.prems have rest: "findPostById i qs = Some p"
      by (simp add: findPostById_def)
    then have "post_id p = i" by (simp add: findPostById_Some_id)
    with False have "q \<noteq> p" by auto
    with False Cons.IH [OF rest] show ?thesis
      by (auto split: prod.splits)
  qed
qed

lemma findPostById_remove1:
  "distinct (map post_id ps) \<Longrightarrow> findPostById i ps = Some p \<Longrightarrow> findPostById i (remove1 p ps) = None"
proof -
  assume d: "distinct (map post_id ps)" and f: "findPostById i ps = Some p"
  from f have p: "post_id p = i" "p \<in> set ps" by (simp_all add: findPostById_Some_id)
  from d have dp: "distinct ps" by (simp add: distinct_map)
  have "i \<notin> post_id ` set (remove1 p ps)"
  proof
    assume "i \<in> post_id ` set (remove1 p ps)"
    then obtain q where q: "q \<in> set (remove1 p ps)" "post_id q = i" by auto
    with dp have "q \<in> set ps" "q \<noteq> p" by auto
    with d p q(2) show False by (metis distinct_map inj_onD)
  qed
  then show ?thesis by (simp add: findPostById_None_iff)
qed

lemma set_deleteOne: "set (snd (deleteOne i ps)) \<subseteq> set ps"
  by (induction ps) (auto split: prod.splits)


lemma findUserById_Some_id: "findUserById i us = Some u \<Longrightarrow> user_id u = i \<and> u \<in> set us"
  by (auto simp: findUserById_def find_Some_iff)

section \<open>Like toggle\<close>

text \<open>A request string is in canonical form when it is the string form of the reference
  it casts to. Then \<^verbatim>\<open>includes\<close> finds exactly that reference.\<close>

lemma string_form_eq: "map_option toString x = Some (toString u) \<longleftrightarrow> x = Some u"
  by (cases x) (auto simp: objectId.expand)

lemma includes_id_canonical:
  "includes_id ids (Some (toString u)) \<longleftrightarrow> Some u \<in> set ids"
proof
  assume "includes_id ids (Some (toString u))"
  then have "Some (toString u) \<in> map_option toString ` set ids"
    by (simp add: includes_id_def)
  then obtain x where "x \<in> set ids" and "map_option toString x = Some (toString u)"
    by (metis imageE)
  then show "Some u \<in> set ids" by (simp only: string_form_eq)
next
  assume "Some u \<in> set ids"
  then have "map_option toString (Some u) \<in> map_option toString ` set ids"
    by (rule imageI)
  then show "includes_id ids (Some (toString u))" by (simp add: includes_id_def)
qed


lemma unlike_filter_no_null:
  "None \<notin> set ids \<Longrightarrow>
   unlike_filter ids (Some v) = Inr (filter (\<lambda>i. map_option toString i \<noteq> Some v) ids)"
  by (induction ids "Some v" rule: unlike_filter.induct) auto


lemma filter_string_form:
  "filter (\<lambda>i. map_option toString i \<noteq> Some (toString u)) ids = filter (\<lambda>i. i \<noteq> Some u) ids"
proof -
  have "(map_option toString i \<noteq> Some (toString u)) = (i \<noteq> Some u)" for i
    by (simp only: string_form_eq)
  then show ?thesis by simp
qed



lemma likePost_push:
  assumes "castObjectId postId = Some pid" and "findPostById pid (posts s) = Some p"
    and "\<not> includes_id (likes p) (Some v)" and "castObjectId v = Some u"
  shows "likePost s postId (Some v) =
    (Response 200 (Post_document (p\<lparr>likes := likes p @ [Some u]\<rparr>)),
     s\<lparr>posts := savePost (p\<lparr>likes := likes p @ [Some u]\<rparr>) (posts s)\<rparr>)"
  using assms by (simp add: likePost_def push_like_def Let_def)

lemma likePost_filter:
  assumes "castObjectId postId = Some pid" and "findPostById pid (posts s) = Some p"
    and "includes_id (likes p) (Some v)" and "None \<notin> set (likes p)"
  shows "likePost s postId (Some v) =
    (Response 200
       (Post_document (p\<lparr>likes := filter (\<lambda>i. map_option toString i \<noteq> Some v) (likes p)\<rparr>)),
     s\<lparr>posts := savePost
         (p\<lparr>likes := filter (\<lambda>i. map_option toString i \<noteq> Some v) (likes p)\<rparr>) (posts s)\<rparr>)"
  using assms by (simp add: likePost_def unlike_filter_no_null Let_def)


text \<open>After a save, the post stored under the id is the saved one.\<close>

lemma stored_after_save:
  assumes "findPostById pid (posts s) = Some p" and "post_id p' = post_id p"
  shows "findPostById pid (posts (s\<lparr>posts := savePost p' (posts s)\<rparr>)) = Some p'"
proof -
  from assms(1) have "post_id p = pid" by (simp add: findPostById_Some_id)
  with assms have "findPostById pid (savePost p' (posts s)) = Some p'"
    by (intro findPostById_savePost) simp_all
  then show ?thesis by simp
qed

text \<open>The like toggle for a user id in canonical form.\<close>

lemma likePost_canonical_absent:
  assumes c: "castObjectId postId = Some pid" and f: "findPostById pid (posts s) = Some p"
    and u: "castObjectId (toString u) = Some u" and a: "Some u \<notin> set (likes p)"
  shows "likePost s postId (Some (toString u)) =
      (Response 200 (Post_document (p\<lparr>likes := likes p @ [Some u]\<rparr>)),
       s\<lparr>posts := savePost (p\<lparr>likes := likes p @ [Some u]\<rparr>) (posts s)\<rparr>)"
  using likePost_push [OF c f _ u] a by (simp add: includes_id_canonical)

lemma likePost_canonical_present:
  assumes c: "castObjectId postId = Some pid" and f: "findPostById pid (posts s) = Some p"
    and a: "Some u \<in> set (likes p)" and n: "None \<notin> set (likes p)"
  shows "likePost s postId (Some (toString u)) =
      (Response 200 (Post_document (p\<lparr>likes := filter (\<lambda>i. i \<noteq> Some u) (likes p)\<rparr>)),
       s\<lparr>posts := savePost (p\<lparr>likes := filter (\<lambda>i. i \<noteq> Some u) (likes p)\<rparr>) (posts s)\<rparr>)"
proof -
  from a have "includes_id (likes p) (Some (toString u))"
    by (simp only: includes_id_canonical)
  from likePost_filter [OF c f this n] show ?thesis
    by (simp only: filter_string_form)
qed




subsection \<open>Two toggles in a row\<close>

text \<open>For a user id in canonical form and likes without null, two toggles restore the
  like set.\<close>

lemma likePost_twice_canonical:
  assumes c: "castObjectId postId = Some pid" and f: "findPostById pid (posts s) = Some p"
    and u: "castObjectId (toString u) = Some u" and n: "None \<notin> set (likes p)"
  shows "\<exists>p''. findPostById pid
            (posts (snd (likePost (snd (likePost s postId (Some (toString u)))) postId
               (Some (toString u))))) = Some p'' \<and>
          set (likes p'') = set (likes p) \<and>
          (Some u \<notin> set (likes p) \<longrightarrow> likes p'' = likes p) \<and>
          p''\<lparr>likes := likes p\<rparr> = p"
proof (cases "Some u \<in> set (likes p)")
  case True
  let ?p' = "p\<lparr>likes := filter (\<lambda>i. i \<noteq> Some u) (likes p)\<rparr>"
  let ?s' = "s\<lparr>posts := savePost ?p' (posts s)\<rparr>"
  let ?p'' = "?p'\<lparr>likes := likes ?p' @ [Some u]\<rparr>"
  have first: "likePost s postId (Some (toString u)) = (Response 200 (Post_document ?p'), ?s')"
    by (rule likePost_canonical_present [OF c f True n])
  have f': "findPostById pid (posts ?s') = Some ?p'"
    by (rule stored_after_save [OF f]) simp
  have second: "likePost ?s' postId (Some (toString u)) =
      (Response 200 (Post_document ?p''), ?s'\<lparr>posts := savePost ?p'' (posts ?s')\<rparr>)"
    by (rule likePost_canonical_absent [OF c f' u]) simp
  have "findPostById pid (posts (?s'\<lparr>posts := savePost ?p'' (posts ?s')\<rparr>)) = Some ?p''"
    by (rule stored_after_save [OF f']) simp
  then have "findPostById pid
      (posts (snd (likePost (snd (likePost s postId (Some (toString u)))) postId
         (Some (toString u))))) = Some ?p''"
    by (simp only: first second snd_conv)
  moreover have "set (likes ?p'') = set (likes p)" using True by auto
  moreover have "?p''\<lparr>likes := likes p\<rparr> = p" by simp
  ultimately show ?thesis using True by blast
next
  case False
  let ?p' = "p\<lparr>likes := likes p @ [Some u]\<rparr>"
  let ?s' = "s\<lparr>posts := savePost ?p' (posts s)\<rparr>"
  let ?p'' = "?p'\<lparr>likes := filter (\<lambda>i. i \<noteq> Some u) (likes ?p')\<rparr>"
  have first: "likePost s postId (Some (toString u)) = (Response 200 (Post_document ?p'), ?s')"
    by (rule likePost_canonical_absent [OF c f u False])
  have f': "findPostById pid (posts ?s') = Some ?p'"
    by (rule stored_after_save [OF f]) simp
  have second: "likePost ?s' postId (Some (toString u)) =
      (Response 200 (Post_document ?p''), ?s'\<lparr>posts := savePost ?p'' (posts ?s')\<rparr>)"
    using n by (intro likePost_canonical_present [OF c f']) simp_all
  have "findPostById pid (posts (?s'\<lparr>posts := savePost ?p'' (posts ?s')\<rparr>)) = Some ?p''"
    by (rule stored_after_save [OF f']) simp
  then have "findPostById pid
      (posts (snd (likePost (snd (likePost s postId (Some (toString u)))) postId
         (Some (toString u))))) = Some ?p''"
    by (simp only: first second snd_conv)
  moreover have l: "likes ?p'' = likes p" using False by (auto simp: filter_id_conv)
  moreover have "?p''\<lparr>likes := likes p\<rparr> = p" by simp
  ultimately show ?thesis by (metis (no_types, lifting))
qed

text \<open>
  C2. Two like toggles in a row with the same user id on the same post are meant to leave
  the post's likes, as a set, as they were before the first toggle. The handler does so for
  a user id in canonical form (above), but not for another spelling of the same id: the
  presence test compares string forms, finds no match, and each toggle appends the user.
  On the post liked by bob only, two toggles with alice's id in upper case leave alice
  among the likes, twice.
\<close>

theorem like_twice_other_spelling:
  "castObjectId alice_upper = Some (ObjectId alice_id) \<and>
   map likes (posts ex_store) = [[Some (ObjectId bob_id)]] \<and>
   map likes (posts (snd (likePost (snd (likePost ex_store post1_id (Some alice_upper)))
      post1_id (Some alice_upper)))) =
     [[Some (ObjectId bob_id), Some (ObjectId alice_id), Some (ObjectId alice_id)]]"
proof -
  have spellings: "alice_upper \<noteq> bob_id" "alice_upper \<noteq> alice_id"
    by (simp_all add: ex_defs)
  then show ?thesis
    by (simp add: likePost_def ex_casts findPostById_def includes_id_def push_like_def Let_def
        ex_store_def post1_def)
qed

subsection \<open>Removing a user who has liked the post\<close>

lemma count_list_filter:
  "count_list (filter P xs) x = (if P x then count_list xs x else 0)"
  by (induction xs) auto

lemma distinct_if_count_le_1: "(\<And>x. count_list xs x \<le> 1) \<Longrightarrow> distinct xs"
proof (induction xs)
  case Nil
  then show ?case by simp
next
  case (Cons a xs)
  have "count_list xs a = 0" using Cons.prems [of a] by simp
  then have "a \<notin> set xs" by (simp add: count_list_0_iff)
  moreover have "distinct xs"
  proof (rule Cons.IH)
    fix x
    show "count_list xs x \<le> 1" using Cons.prems [of x] by (simp split: if_splits)
  qed
  ultimately show ?case by simp
qed

text \<open>When the request's string is the string form of some like and no like is null, the
  toggle removes every like with that string form.\<close>

lemma unlike_removes_all:
  assumes c: "castObjectId postId = Some pid" and f: "findPostById pid (posts s) = Some p"
    and liked: "Some u \<in> set (likes p)" and n: "None \<notin> set (likes p)"
  shows "\<exists>p'. findPostById pid (posts (snd (likePost s postId (Some (toString u))))) = Some p' \<and>
      likes p' = filter (\<lambda>i. map_option toString i \<noteq> Some (toString u)) (likes p) \<and>
      count_list (likes p') (Some u) = 0 \<and>
      ((\<forall>j. j \<noteq> Some u \<longrightarrow> count_list (likes p) j \<le> 1) \<longrightarrow> distinct (likes p'))"
proof -
  let ?l = "filter (\<lambda>i. i \<noteq> Some u) (likes p)"
  let ?p' = "p\<lparr>likes := ?l\<rparr>"
  have "findPostById pid (posts (snd (likePost s postId (Some (toString u))))) = Some ?p'"
    using stored_after_save [OF f, of ?p']
    by (simp add: likePost_canonical_present [OF c f liked n])
  moreover have "likes ?p' = filter (\<lambda>i. map_option toString i \<noteq> Some (toString u)) (likes p)"
    by (simp only: filter_string_form) simp
  moreover have "count_list ?l (Some u) = 0"
    by (simp add: count_list_filter)
  moreover have "(\<forall>j. j \<noteq> Some u \<longrightarrow> count_list (likes p) j \<le> 1) \<longrightarrow> distinct ?l"
  proof
    assume others: "\<forall>j. j \<noteq> Some u \<longrightarrow> count_list (likes p) j \<le> 1"
    show "distinct ?l"
    proof (rule distinct_if_count_le_1)
      fix x
      show "count_list ?l x \<le> 1"
        using others by (cases "x = Some u") (auto simp: count_list_filter)
    qed
  qed
  ultimately show ?thesis by simp
qed

text \<open>
  C10. A like toggle by a user who is among the post's likes is meant to remove every
  entry of that user, so that the user occurs zero times afterwards. The handler does so
  when the request's string is the string form of a like and no like is null (above). It
  does not when a like is null: the removal throws, the answer is 500 and the user stays.
  And it does not when the user's id is sent in another spelling: the user is appended and
  occurs once more than before.
\<close>

theorem unlike_leaves_user:
  "findPostById (ObjectId post1_id) (posts null_store) = Some post_null \<and>
   count_list (likes post_null) (Some (ObjectId bob_id)) = 1 \<and>
   likePost null_store post1_id (Some bob_id) = (Response 500 (Thrown TypeError), null_store) \<and>
   castObjectId bob_upper = Some (ObjectId bob_id) \<and>
   map (\<lambda>p. count_list (likes p) (Some (ObjectId bob_id))) (posts ex_store) = [1] \<and>
   map (\<lambda>p. count_list (likes p) (Some (ObjectId bob_id)))
     (posts (snd (likePost ex_store post1_id (Some bob_upper)))) = [2]"
proof -
  have spellings: "bob_upper \<noteq> bob_id"
    by (simp_all add: ex_defs)
  then show ?thesis
    by (simp add: likePost_def ex_casts findPostById_def includes_id_def push_like_def Let_def
        ex_store_def null_store_def post1_def post_null_def)
qed

section \<open>Likes hold each user at most once\<close>

lemma likes_inv_iff: "likes_inv s \<longleftrightarrow> (\<forall>p \<in> set (posts s). distinct (likes p))"
  by (simp add: likes_inv_def list_all_iff)

lemma likes_inv_savePost:
  assumes "likes_inv s" and "distinct (likes p')"
  shows "likes_inv (s\<lparr>posts := savePost p' (posts s)\<rparr>)"
  using assms set_savePost [of p' "posts s"] by (auto simp: likes_inv_iff)

lemma unlike_filter_sublist:
  "unlike_filter ids v = Inr kept \<Longrightarrow> distinct ids \<Longrightarrow> distinct kept"
proof (induction ids v arbitrary: kept rule: unlike_filter.induct)
  case (4 i ids s)
  then obtain r where r: "unlike_filter ids (Some s) = Inr r"
    by (cases "unlike_filter ids (Some s)") auto
  with 4 have k: "kept = (if toString i \<noteq> s then Some i # r else r)" by simp
  have sub: "set r \<subseteq> set ids"
    using r
  proof (induction ids "Some s" arbitrary: r rule: unlike_filter.induct)
    case (4 j js)
    then show ?case by (cases "unlike_filter js (Some s)") (auto split: if_splits)
  qed auto
  from 4 r have "distinct r" by simp
  with k sub 4(3) show ?case by auto
qed auto

text \<open>Every request keeps the invariant, except possibly a like whose user id casts to a
  reference but is not that reference's string form.\<close>

lemma likes_inv_likePost_canonical:
  assumes inv: "likes_inv s"
    and canon: "\<And>v u. userId = Some v \<Longrightarrow> castObjectId v = Some u \<Longrightarrow> toString u = v"
  shows "likes_inv (snd (likePost s postId userId))"
proof (cases "castObjectId postId")
  case None
  with inv show ?thesis by (simp add: likePost_def)
next
  case (Some pid)
  show ?thesis
  proof (cases "findPostById pid (posts s)")
    case None
    with Some inv show ?thesis by (simp add: likePost_def)
  next
    case found: (Some p)
    then have "p \<in> set (posts s)" by (simp add: findPostById_Some_id)
    with inv have d: "distinct (likes p)" by (simp add: likes_inv_iff)
    let ?r = "if includes_id (likes p) userId then unlike_filter (likes p) userId
              else push_like (likes p) userId"
    show ?thesis
    proof (cases ?r)
      case (Inl err)
      with Some found inv show ?thesis by (simp add: likePost_def Let_def)
    next
      case (Inr newLikes)
      have "distinct newLikes"
      proof (cases "includes_id (likes p) userId")
        case True
        with Inr d show ?thesis by (auto intro: unlike_filter_sublist)
      next
        case False
        show ?thesis
        proof (cases userId)
          case None
          with False Inr d show ?thesis by (auto simp: includes_id_def push_like_def)
        next
          case (Some v)
          with False Inr obtain u where u: "castObjectId v = Some u"
            and nl: "newLikes = likes p @ [Some u]"
            by (auto simp: push_like_def split: option.splits)
          from canon [OF Some u] have "toString u = v" .
          with False Some have "Some u \<notin> set (likes p)"
            using includes_id_canonical [of "likes p" u] by simp
          with d nl show ?thesis by simp
        qed
      qed
      then have "likes_inv (s\<lparr>posts := savePost (p\<lparr>likes := newLikes\<rparr>) (posts s)\<rparr>)"
        using inv by (intro likes_inv_savePost) simp_all
      with Some found Inr show ?thesis by (simp add: likePost_def Let_def)
    qed
  qed
qed

lemma likes_inv_addComment:
  assumes inv: "likes_inv s"
  shows "likes_inv (snd (addComment e s postID userId txt))"
proof -
  have save: "likes_inv (s\<lparr>posts := savePost (p\<lparr>comments := cs\<rparr>) (posts s)\<rparr>)"
    if "findPostById i (posts s) = Some p" for i p cs
  proof -
    from that have "p \<in> set (posts s)" by (simp add: findPostById_Some_id)
    with inv have "distinct (likes (p\<lparr>comments := cs\<rparr>))" by (simp add: likes_inv_iff)
    with inv show ?thesis by (rule likes_inv_savePost)
  qed
  show ?thesis
    using inv save by (simp add: addComment_def Let_def split: option.splits)
qed

lemma likes_inv_deletePost: "likes_inv s \<Longrightarrow> likes_inv (snd (deletePost s i))"
proof (cases "castObjectId i")
  case None
  assume "likes_inv s"
  with None show ?thesis by (simp add: deletePost_def)
next
  case (Some pid)
  assume inv: "likes_inv s"
  have "posts (snd (deletePost s i)) = snd (deleteOne pid (posts s))"
    using Some by (simp add: deletePost_def split: prod.splits)
  with inv set_deleteOne [of pid "posts s"] show ?thesis
    by (auto simp: likes_inv_iff)
qed

lemma likes_inv_handle_canonical:
  assumes inv: "likes_inv s"
    and canon: "\<And>postId v u. r = LikePost postId (Some v) \<Longrightarrow> castObjectId v = Some u \<Longrightarrow>
      toString u = v"
  shows "likes_inv (snd (handle e s r))"
proof (cases r)
  case (GetUser i)
  with inv show ?thesis by (simp add: getUser_def split: option.splits)
next
  case (Register uname mail pw photo)
  with inv show ?thesis by (simp add: register_def likes_inv_def Let_def split: option.splits)
next
  case (Login uname pw)
  with inv show ?thesis by (simp add: login_def split: option.splits)
next
  case (CreatePost ttl descr uid img)
  with inv show ?thesis by (simp add: createPost_def likes_inv_def Let_def split: option.splits)
next
  case (GetPosts q)
  with inv show ?thesis by (simp add: getPosts_def split: option.splits)
next
  case (DeletePost i)
  with inv show ?thesis by (simp add: likes_inv_deletePost)
next
  case (LikePost postId userId)
  with inv canon show ?thesis by (simp add: likes_inv_likePost_canonical)
next
  case (AddComment postID userId text')
  with inv show ?thesis by (simp add: likes_inv_addComment)
qed

text \<open>
  C3. The likes of a post are meant to hold each user reference at most once, in every
  store the server can reach. Every request keeps this (above) except a like whose user id
  is another spelling of a user already among the likes: the handler appends that user
  again. The store reached from the empty database by creating a post and liking it twice
  as bob, the second time with the id in upper case, holds bob twice.
\<close>

theorem duplicate_like_reachable:
  "reachable liked_twice_store \<and>
   map likes (posts liked_twice_store) = [[Some (ObjectId bob_id), Some (ObjectId bob_id)]] \<and>
   \<not> likes_inv liked_twice_store"
proof -
  have "reachable liked_twice_store"
    unfolding liked_twice_store_def created_store_def
    by (intro reachable_step reachable_empty)
  moreover have spellings: "bob_upper \<noteq> bob_id" "created_id \<noteq> []"
    by (simp_all add: ex_defs)
  have l: "map likes (posts liked_twice_store) = [[Some (ObjectId bob_id), Some (ObjectId bob_id)]]"
    using spellings
    by (simp add: liked_twice_store_def created_store_def createPost_def likePost_def ex_casts
        findPostById_def includes_id_def push_like_def Let_def ex_env_def empty_store_def)
  moreover have "\<not> likes_inv liked_twice_store"
    using l by (auto simp: likes_inv_iff)
  ultimately show ?thesis by blast
qed

section \<open>Login\<close>

text \<open>
  C4. For all user stores and login requests: the response to a login whose username is
  not stored and the response to a login whose username is stored but whose password does
  not match the stored hash are the same response, 401 Unauthorized with the same error
  text; neither changes the store.
\<close>

theorem login_failures_indistinguishable:
  assumes unknown: "findOneUser (\<lambda>u. username u = uname1) (users s1) = None"
    and known: "findOneUser (\<lambda>u. username u = uname2) (users s2) = Some u"
    and mismatch: "\<not> bcrypt_compare e2 pw2 (password u)"
  shows "fst (login e1 s1 uname1 pw1) = fst (login e2 s2 uname2 pw2) \<and>
         fst (login e1 s1 uname1 pw1) =
           Response 401 (Success_error False ''Invalid username or password'') \<and>
         snd (login e1 s1 uname1 pw1) = s1 \<and> snd (login e2 s2 uname2 pw2) = s2"
  using assms by (simp add: login_def)

theorem login_failures_indistinguishable_witness:
  "findOneUser (\<lambda>u. username u = ''mallory'') (users ex_store) = None \<and>
   findOneUser (\<lambda>u. username u = ''alice'') (users ex_store) = Some alice \<and>
   \<not> bcrypt_compare ex_env ''guess'' (password alice) \<and>
   fst (login ex_env ex_store ''mallory'' ''guess'') = fst (login ex_env ex_store ''alice'' ''guess'') \<and>
   fst (login ex_env ex_store ''mallory'' ''guess'') =
     Response 401 (Success_error False ''Invalid username or password'')"
proof -
  have unknown: "findOneUser (\<lambda>u. username u = ''mallory'') (users ex_store) = None"
    by (simp add: ex_defs findOneUser_def)
  have known: "findOneUser (\<lambda>u. username u = ''alice'') (users ex_store) = Some alice"
    by (simp add: ex_defs findOneUser_def)
  have mismatch: "\<not> bcrypt_compare ex_env ''guess'' (password alice)"
    by (simp add: ex_defs)
  from login_failures_indistinguishable [OF unknown known mismatch, of ex_env "''guess''"]
    unknown known mismatch
  show ?thesis by blast
qed


section \<open>Registration\<close>

lemma findOneUser_exists:
  "(\<exists>u \<in> set us. f u) \<Longrightarrow> \<exists>v. findOneUser f us = Some v"
  by (cases "findOneUser f us") (auto simp: findOneUser_def find_None_iff)

lemma register_taken:
  assumes "\<exists>u \<in> set (users s). username u = uname \<or> email u = mail"
  shows "register e s uname mail pw photo =
      (Response 409 (Success_error False ''Username or email already exists''), s)"
proof -
  from assms have "\<exists>u \<in> set (users s). email u = mail \<or> username u = uname" by blast
  then obtain v where "findOneUser (\<lambda>u. email u = mail \<or> username u = uname) (users s) = Some v"
    using findOneUser_exists [of "users s" "\<lambda>u. email u = mail \<or> username u = uname"] by blast
  then show ?thesis by (simp add: register_def)
qed

lemma register_created:
  assumes "status (fst (register e s uname mail pw photo)) = 201"
  shows "users (snd (register e s uname mail pw photo)) =
      users s @ [\<lparr>user_id = newId e, username = uname, email = mail,
                  password = bcrypt_hash e pw, profilePhoto = photo\<rparr>]"
  using assms by (simp add: register_def Let_def split: option.splits)

text \<open>
  C5. For every user store and registration request: when a stored user has the same
  username or the same email, the handler answers 409 Conflict and the store is unchanged.
  In particular, after a registration that succeeded, a registration with the same username
  and another email, or the same email and another username, answers 409 and inserts nothing.
\<close>

theorem register_conflict:
  "((\<exists>u \<in> set (users s). username u = uname \<or> email u = mail) \<longrightarrow>
      register e s uname mail pw photo =
        (Response 409 (Success_error False ''Username or email already exists''), s)) \<and>
   (status (fst (register e s uname mail pw photo)) = 201 \<longrightarrow>
      (let s' = snd (register e s uname mail pw photo) in
         register e' s' uname mail' pw' photo' =
           (Response 409 (Success_error False ''Username or email already exists''), s') \<and>
         register e' s' uname' mail pw' photo' =
           (Response 409 (Success_error False ''Username or email already exists''), s')))"
proof (intro conjI impI)
  assume "\<exists>u \<in> set (users s). username u = uname \<or> email u = mail"
  then show "register e s uname mail pw photo =
        (Response 409 (Success_error False ''Username or email already exists''), s)"
    by (rule register_taken)
next
  assume ok: "status (fst (register e s uname mail pw photo)) = 201"
  let ?s' = "snd (register e s uname mail pw photo)"
  let ?u = "\<lparr>user_id = newId e, username = uname, email = mail,
                  password = bcrypt_hash e pw, profilePhoto = photo\<rparr>"
  from register_created [OF ok] have "?u \<in> set (users ?s')" by simp
  then have a: "\<exists>u \<in> set (users ?s'). username u = uname \<or> email u = mail'"
    and b: "\<exists>u \<in> set (users ?s'). username u = uname' \<or> email u = mail"
    by (auto intro: bexI [of _ ?u])
  show "let s' = ?s' in
         register e' s' uname mail' pw' photo' =
           (Response 409 (Success_error False ''Username or email already exists''), s') \<and>
         register e' s' uname' mail pw' photo' =
           (Response 409 (Success_error False ''Username or email already exists''), s')"
    using register_taken [OF a] register_taken [OF b]
    by (simp add: Let_def)
qed


theorem register_conflict_witness:
  "alice \<in> set (users ex_store) \<and> username alice = ''alice'' \<and>
   register ex_env ex_store ''alice'' ''new@example.org'' ''secret'' None =
     (Response 409 (Success_error False ''Username or email already exists''), ex_store) \<and>
   status (fst (register ex_env empty_store ''carol'' ''carol@example.org'' ''secret'' None)) = 201 \<and>
   fst (register ex_env (snd (register ex_env empty_store ''carol'' ''carol@example.org'' ''secret'' None))
          ''carol'' ''other@example.org'' ''hunter2'' None) =
     Response 409 (Success_error False ''Username or email already exists'') \<and>
   fst (register ex_env (snd (register ex_env empty_store ''carol'' ''carol@example.org'' ''secret'' None))
          ''carla'' ''carol@example.org'' ''hunter2'' None) =
     Response 409 (Success_error False ''Username or email already exists'')"
proof -
  have stored: "alice \<in> set (users ex_store)" and name: "username alice = ''alice''"
    by (simp_all add: ex_defs)
  then have taken: "\<exists>u \<in> set (users ex_store). username u = ''alice'' \<or> email u = ''new@example.org''"
    by blast
  have created:
    "status (fst (register ex_env empty_store ''carol'' ''carol@example.org'' ''secret'' None)) = 201"
    by (simp add: register_def findOneUser_def ex_defs Let_def)
  note first = register_conflict [of ex_store "''alice''" "''new@example.org''" ex_env "''secret''" None]
  note second = register_conflict [of empty_store "''carol''" "''carol@example.org''" ex_env
      "''secret''" None ex_env "''other@example.org''" "''hunter2''" None "''carla''"]
  have "register ex_env ex_store ''alice'' ''new@example.org'' ''secret'' None =
     (Response 409 (Success_error False ''Username or email already exists''), ex_store)"
    using first taken by blast
  moreover have "fst (register ex_env (snd (register ex_env empty_store ''carol'' ''carol@example.org'' ''secret'' None))
          ''carol'' ''other@example.org'' ''hunter2'' None) =
     Response 409 (Success_error False ''Username or email already exists'') \<and>
   fst (register ex_env (snd (register ex_env empty_store ''carol'' ''carol@example.org'' ''secret'' None))
          ''carla'' ''carol@example.org'' ''hunter2'' None) =
     Response 409 (Success_error False ''Username or email already exists'')"
    using second created by (simp add: Let_def)
  ultimately show ?thesis using stored name created by blast
qed

section \<open>Comments\<close>

text \<open>
  C6. For every comment request whose userId or whose text is missing or empty, the
  handler answers 400 BadRequest and the store is unchanged: in particular every post has
  as many comments as before.
\<close>

theorem addComment_bad_request:
  assumes "userId = None \<or> userId = Some [] \<or> txt = None \<or> txt = Some []"
  shows "addComment e s postID userId txt =
           (Response 400 (Error ''User ID and comment text are required''), s) \<and>
         map (\<lambda>p. length (comments p)) (posts (snd (addComment e s postID userId txt))) =
           map (\<lambda>p. length (comments p)) (posts s)"
  using assms by (auto simp: addComment_def falsy_def)

theorem addComment_bad_request_witness:
  "addComment ex_env ex_store post1_id None (Some ''Nice'') =
     (Response 400 (Error ''User ID and comment text are required''), ex_store) \<and>
   addComment ex_env ex_store post1_id (Some bob_id) (Some []) =
     (Response 400 (Error ''User ID and comment text are required''), ex_store) \<and>
   addComment ex_env ex_store post1_id (Some []) None =
     (Response 400 (Error ''User ID and comment text are required''), ex_store)"
  using addComment_bad_request [of None "Some ''Nice''" ex_env ex_store post1_id]
    addComment_bad_request [of "Some bob_id" "Some []" ex_env ex_store post1_id]
    addComment_bad_request [of "Some []" None ex_env ex_store post1_id]
  by simp

lemma addComment_run:
  assumes "uid \<noteq> []" and "t \<noteq> []"
    and "castObjectId postID = Some pid" and "findPostById pid (posts s) = Some p"
    and "castObjectId uid = Some ui" and "findUserById ui (users s) = Some u"
  shows "addComment e s postID (Some uid) (Some t) =
    (Response 201 (Message_comment ''Comment added successfully''
       \<lparr>cr_id = newId e, cr_user = select_user u, cr_text = t, cr_createdAt = now e\<rparr>),
     s\<lparr>posts := savePost (p\<lparr>comments := comments p @
          [\<lparr>comment_id = newId e, comment_user = ui, comment_text = t,
            createdAt = now e\<rparr>]\<rparr>) (posts s)\<rparr>)"
  using assms
  by (simp add: addComment_def falsy_def Let_def populate_comment_def populate_user_def)

lemma addComment_created_only:
  assumes "status (fst (addComment e s postID userId txt)) = 201"
  shows "\<exists>uid t pid p ui u. userId = Some uid \<and> uid \<noteq> [] \<and> txt = Some t \<and> t \<noteq> [] \<and>
      castObjectId postID = Some pid \<and> findPostById pid (posts s) = Some p \<and>
      castObjectId uid = Some ui \<and> findUserById ui (users s) = Some u"
proof -
  from assms have present: "\<not> falsy userId" "\<not> falsy txt"
    by (auto simp: addComment_def split: if_splits)
  then obtain uid t where ut: "userId = Some uid" "uid \<noteq> []" "txt = Some t" "t \<noteq> []"
    by (auto simp: falsy_def split: option.splits)
  from assms present obtain pid where pid: "castObjectId postID = Some pid"
    by (cases "castObjectId postID") (auto simp: addComment_def)
  from assms present pid obtain p where p: "findPostById pid (posts s) = Some p"
    by (cases "findPostById pid (posts s)") (auto simp: addComment_def)
  from assms present pid p ut obtain ui where ui: "castObjectId uid = Some ui"
    by (cases "castObjectId uid") (auto simp: addComment_def)
  from assms present pid p ut ui obtain u where "findUserById ui (users s) = Some u"
    by (cases "findUserById ui (users s)") (auto simp: addComment_def)
  with ut pid p ui show ?thesis by blast
qed

text \<open>
  C7. A comment request succeeds (201) exactly when userId and text are present and not
  empty, the post id casts to the id of a stored post and the user id casts to the id of a
  stored user. For every such request: the post stored under that id afterwards has exactly
  the former comments followed by one new comment with the given text, the given author
  reference, the generated identifier and the generated timestamp, and is otherwise as
  before; users and the other posts are untouched; the response carries that one comment
  only, with the author's id, username and profile photo in place of the reference.
\<close>

theorem addComment_success:
  "(status (fst (addComment e s postID userId txt)) = 201 \<longleftrightarrow>
      (\<exists>uid t pid p ui u. userId = Some uid \<and> uid \<noteq> [] \<and> txt = Some t \<and> t \<noteq> [] \<and>
         castObjectId postID = Some pid \<and> findPostById pid (posts s) = Some p \<and>
         castObjectId uid = Some ui \<and> findUserById ui (users s) = Some u)) \<and>
   (\<forall>uid t pid p ui u. userId = Some uid \<and> uid \<noteq> [] \<and> txt = Some t \<and> t \<noteq> [] \<and>
         castObjectId postID = Some pid \<and> findPostById pid (posts s) = Some p \<and>
         castObjectId uid = Some ui \<and> findUserById ui (users s) = Some u \<longrightarrow>
      (\<exists>p'. findPostById pid (posts (snd (addComment e s postID userId txt))) = Some p' \<and>
         comments p' = comments p @
           [\<lparr>comment_id = newId e, comment_user = ui, comment_text = t, createdAt = now e\<rparr>] \<and>
         p'\<lparr>comments := comments p\<rparr> = p \<and>
         fst (addComment e s postID userId txt) =
           Response 201 (Message_comment ''Comment added successfully''
             \<lparr>cr_id = newId e,
              cr_user = \<lparr>view_id = ui, view_username = username u,
                         view_profilePhoto = profilePhoto u\<rparr>,
              cr_text = t, cr_createdAt = now e\<rparr>) \<and>
         users (snd (addComment e s postID userId txt)) = users s \<and>
         (\<forall>j. j \<noteq> pid \<longrightarrow>
            findPostById j (posts (snd (addComment e s postID userId txt))) =
            findPostById j (posts s))))"
proof (intro conjI allI impI iffI)
  assume "status (fst (addComment e s postID userId txt)) = 201"
  then show "\<exists>uid t pid p ui u. userId = Some uid \<and> uid \<noteq> [] \<and> txt = Some t \<and> t \<noteq> [] \<and>
         castObjectId postID = Some pid \<and> findPostById pid (posts s) = Some p \<and>
         castObjectId uid = Some ui \<and> findUserById ui (users s) = Some u"
    by (rule addComment_created_only)
next
  assume "\<exists>uid t pid p ui u. userId = Some uid \<and> uid \<noteq> [] \<and> txt = Some t \<and> t \<noteq> [] \<and>
         castObjectId postID = Some pid \<and> findPostById pid (posts s) = Some p \<and>
         castObjectId uid = Some ui \<and> findUserById ui (users s) = Some u"
  then obtain uid t pid p ui u where "userId = Some uid" "uid \<noteq> []" "txt = Some t" "t \<noteq> []"
    "castObjectId postID = Some pid" "findPostById pid (posts s) = Some p"
    "castObjectId uid = Some ui" "findUserById ui (users s) = Some u" by blast
  then show "status (fst (addComment e s postID userId txt)) = 201"
    by (simp add: addComment_run)
next
  fix uid t pid p ui u
  assume h: "userId = Some uid \<and> uid \<noteq> [] \<and> txt = Some t \<and> t \<noteq> [] \<and>
         castObjectId postID = Some pid \<and> findPostById pid (posts s) = Some p \<and>
         castObjectId uid = Some ui \<and> findUserById ui (users s) = Some u"
  then have post: "findPostById pid (posts s) = Some p"
    and usr: "findUserById ui (users s) = Some u" by simp_all
  let ?c = "\<lparr>comment_id = newId e, comment_user = ui, comment_text = t, createdAt = now e\<rparr>"
  let ?p' = "p\<lparr>comments := comments p @ [?c]\<rparr>"
  from h have run: "addComment e s postID userId txt =
    (Response 201 (Message_comment ''Comment added successfully''
       \<lparr>cr_id = newId e, cr_user = select_user u, cr_text = t, cr_createdAt = now e\<rparr>),
     s\<lparr>posts := savePost ?p' (posts s)\<rparr>)"
    by (simp add: addComment_run)
  from post have pid: "post_id p = pid" by (simp add: findPostById_Some_id)
  from usr have "user_id u = ui" by (simp add: findUserById_Some_id)
  then have view: "select_user u = \<lparr>view_id = ui, view_username = username u,
                      view_profilePhoto = profilePhoto u\<rparr>"
    by (simp add: select_user_def)
  have "findPostById pid (posts (snd (addComment e s postID userId txt))) = Some ?p'"
    using stored_after_save [OF post, of ?p'] by (simp add: run)
  moreover have "comments ?p' = comments p @ [?c]" by simp
  moreover have "?p'\<lparr>comments := comments p\<rparr> = p" by simp
  moreover have "fst (addComment e s postID userId txt) =
        Response 201 (Message_comment ''Comment added successfully''
          \<lparr>cr_id = newId e,
           cr_user = \<lparr>view_id = ui, view_username = username u,
                      view_profilePhoto = profilePhoto u\<rparr>,
           cr_text = t, cr_createdAt = now e\<rparr>)"
    by (simp add: run view)
  moreover have "users (snd (addComment e s postID userId txt)) = users s"
    by (simp add: run)
  moreover have "\<forall>j. j \<noteq> pid \<longrightarrow>
         findPostById j (posts (snd (addComment e s postID userId txt))) =
         findPostById j (posts s)"
    using pid by (simp add: run findPostById_savePost_other)
  ultimately show "\<exists>p'. findPostById pid (posts (snd (addComment e s postID userId txt))) = Some p' \<and>
         comments p' = comments p @
           [\<lparr>comment_id = newId e, comment_user = ui, comment_text = t, createdAt = now e\<rparr>] \<and>
         p'\<lparr>comments := comments p\<rparr> = p \<and>
         fst (addComment e s postID userId txt) =
           Response 201 (Message_comment ''Comment added successfully''
             \<lparr>cr_id = newId e,
              cr_user = \<lparr>view_id = ui, view_username = username u,
                         view_profilePhoto = profilePhoto u\<rparr>,
              cr_text = t, cr_createdAt = now e\<rparr>) \<and>
         users (snd (addComment e s postID userId txt)) = users s \<and>
         (\<forall>j. j \<noteq> pid \<longrightarrow>
            findPostById j (posts (snd (addComment e s postID userId txt))) =
            findPostById j (posts s))"
    by blast
qed

theorem addComment_success_witness:
  "bob_upper \<noteq> [] \<and> ''Nice'' \<noteq> [] \<and>
   castObjectId post1_upper = Some (ObjectId post1_id) \<and>
   findPostById (ObjectId post1_id) (posts commented_store) = Some post_commented \<and>
   castObjectId bob_upper = Some (ObjectId bob_id) \<and>
   findUserById (ObjectId bob_id) (users commented_store) = Some bob \<and>
   status (fst (addComment ex_env commented_store post1_upper (Some bob_upper) (Some ''Nice''))) = 201 \<and>
   (\<exists>p'. findPostById (ObjectId post1_id)
            (posts (snd (addComment ex_env commented_store post1_upper (Some bob_upper) (Some ''Nice'')))) =
          Some p' \<and>
      comments p' =
        [comment1,
         \<lparr>comment_id = ObjectId created_id, comment_user = ObjectId bob_id,
          comment_text = ''Nice'', createdAt = 1700000000\<rparr>]) \<and>
   fst (addComment ex_env commented_store post1_upper (Some bob_upper) (Some ''Nice'')) =
     Response 201 (Message_comment ''Comment added successfully''
       \<lparr>cr_id = ObjectId created_id,
        cr_user = \<lparr>view_id = ObjectId bob_id, view_username = ''bob'', view_profilePhoto = None\<rparr>,
        cr_text = ''Nice'', cr_createdAt = 1700000000\<rparr>)"
proof -
  have nonempty: "bob_upper \<noteq> []" "''Nice'' \<noteq> []" by (simp_all add: ex_defs)
  have stored_post: "findPostById (ObjectId post1_id) (posts commented_store) = Some post_commented"
    by (simp add: ex_defs findPostById_def)
  have stored_user: "findUserById (ObjectId bob_id) (users commented_store) = Some bob"
    by (simp add: ex_defs findUserById_def)
  have vals: "newId ex_env = ObjectId created_id" "now ex_env = 1700000000"
    "comments post_commented = [comment1]" "username bob = ''bob''" "profilePhoto bob = None"
    by (simp_all add: ex_defs)
  note inst = addComment_success [of ex_env commented_store post1_upper "Some bob_upper"
      "Some ''Nice''"]
  have hyp: "Some bob_upper = Some bob_upper \<and> bob_upper \<noteq> [] \<and> Some ''Nice'' = Some ''Nice'' \<and>
      ''Nice'' \<noteq> [] \<and> castObjectId post1_upper = Some (ObjectId post1_id) \<and>
      findPostById (ObjectId post1_id) (posts commented_store) = Some post_commented \<and>
      castObjectId bob_upper = Some (ObjectId bob_id) \<and>
      findUserById (ObjectId bob_id) (users commented_store) = Some bob"
    using nonempty stored_post stored_user castObjectId_post1_upper castObjectId_bob_upper
    by simp
  have created:
    "status (fst (addComment ex_env commented_store post1_upper (Some bob_upper) (Some ''Nice''))) = 201"
    using inst hyp by blast
  from inst hyp obtain p' where "findPostById (ObjectId post1_id)
            (posts (snd (addComment ex_env commented_store post1_upper (Some bob_upper) (Some ''Nice'')))) =
          Some p'"
    and "comments p' = comments post_commented @
        [\<lparr>comment_id = newId ex_env, comment_user = ObjectId bob_id, comment_text = ''Nice'',
          createdAt = now ex_env\<rparr>]"
    and "fst (addComment ex_env commented_store post1_upper (Some bob_upper) (Some ''Nice'')) =
        Response 201 (Message_comment ''Comment added successfully''
          \<lparr>cr_id = newId ex_env,
           cr_user = \<lparr>view_id = ObjectId bob_id, view_username = username bob,
                      view_profilePhoto = profilePhoto bob\<rparr>,
           cr_text = ''Nice'', cr_createdAt = now ex_env\<rparr>)"
    by blast
  then show ?thesis
    using nonempty stored_post stored_user castObjectId_post1_upper castObjectId_bob_upper created
    by (auto simp: vals)
qed

section \<open>Listing posts\<close>

lemma populate_user_case:
  "populate_user us i =
      (case findUserById i us of
         None \<Rightarrow> None
       | Some u \<Rightarrow> Some \<lparr>view_id = user_id u, view_username = username u,
                         view_profilePhoto = profilePhoto u\<rparr>)"
  by (simp add: populate_user_def select_user_def split: option.splits)

lemma populate_comments_rel:
  "list_all2
     (\<lambda>pc c. pc_id pc = comment_id c \<and> pc_text pc = comment_text c \<and>
        pc_createdAt pc = createdAt c \<and>
        pc_user pc =
          (case findUserById (comment_user c) us of
             None \<Rightarrow> None
           | Some u \<Rightarrow> Some \<lparr>view_id = user_id u, view_username = username u,
                             view_profilePhoto = profilePhoto u\<rparr>))
     (map (populate_comment us) xs) xs"
  unfolding list_all2_map1
  by (rule list_all2_all_nthI) (simp_all add: populate_comment_def populate_user_case)

text \<open>
  The claim as stated fails in two ways. Post creation does not check that the owner is a
  registered user, and a reference to a user that is not stored populates to null: a listed
  post then has no expanded owner. And a userId that the cast rejects is answered with 500.
\<close>

theorem getPosts_dangling_owner_counterexample:
  "users created_store = [] \<and>
   fst (getPosts created_store (Some alice_id)) =
     Response 200 (Message_success_data ''Successfull'' True
       [\<lparr>pp_id = ObjectId created_id, pp_title = ''Hello'', pp_description = ''First post'',
         pp_image = None, pp_user = None, pp_likes = [], pp_comments = []\<rparr>]) \<and>
   getPosts ex_store (Some ''abc'') =
     (Response 500 (Success_error False ''Internal Server Error''), ex_store)"
proof -
  have "alice_id \<noteq> []" by (simp add: ex_defs)
  then show ?thesis
    by (simp add: created_store_def createPost_def getPosts_def falsy_def ex_casts
        populate_post_def populate_user_def findUserById_def Let_def ex_env_def empty_store_def)
qed

text \<open>
  C8 (amended). For every listing request: when the userId query parameter is missing or
  empty the handler answers 400 BadRequest and leaves the store alone; when the cast
  rejects it the handler answers 500. Otherwise it answers 200 with, in store order,
  exactly the posts whose owner reference is the id that userId casts to; each carries the
  post's own fields, its owner reference replaced by the id, username and profile photo of
  the stored user with that id, or by null when no such user is stored, and each of its
  comments with the author reference replaced in the same way. When no post has that owner
  the answer is 200 with the empty sequence.
\<close>

theorem getPosts_contract:
  "(q = None \<or> q = Some [] \<longrightarrow>
      getPosts s q = (Response 400 (Success_error False ''User ID is required''), s)) \<and>
   (\<forall>userId. q = Some userId \<and> userId \<noteq> [] \<and> castObjectId userId = None \<longrightarrow>
      getPosts s q = (Response 500 (Success_error False ''Internal Server Error''), s)) \<and>
   (\<forall>userId owner. q = Some userId \<and> userId \<noteq> [] \<and> castObjectId userId = Some owner \<longrightarrow>
      (\<exists>ds. getPosts s q = (Response 200 (Message_success_data ''Successfull'' True ds), s) \<and>
         list_all2
           (\<lambda>d p. pp_id d = post_id p \<and> pp_title d = title p \<and>
              pp_description d = description p \<and> pp_image d = post_image p \<and>
              pp_likes d = likes p \<and>
              pp_user d =
                (case findUserById owner (users s) of
                   None \<Rightarrow> None
                 | Some u \<Rightarrow> Some \<lparr>view_id = user_id u, view_username = username u,
                                   view_profilePhoto = profilePhoto u\<rparr>) \<and>
              list_all2
                (\<lambda>pc c. pc_id pc = comment_id c \<and> pc_text pc = comment_text c \<and>
                   pc_createdAt pc = createdAt c \<and>
                   pc_user pc =
                     (case findUserById (comment_user c) (users s) of
                        None \<Rightarrow> None
                      | Some u \<Rightarrow> Some \<lparr>view_id = user_id u, view_username = username u,
                                        view_profilePhoto = profilePhoto u\<rparr>))
                (pp_comments d) (comments p))
           ds (filter (\<lambda>p. post_user p = owner) (posts s)) \<and>
         ((\<forall>p \<in> set (posts s). post_user p \<noteq> owner) \<longrightarrow> ds = [])))"
proof (intro conjI allI impI)
  assume "q = None \<or> q = Some []"
  then show "getPosts s q = (Response 400 (Success_error False ''User ID is required''), s)"
    by (auto simp: getPosts_def falsy_def)
next
  fix userId
  assume "q = Some userId \<and> userId \<noteq> [] \<and> castObjectId userId = None"
  then show "getPosts s q = (Response 500 (Success_error False ''Internal Server Error''), s)"
    by (simp add: getPosts_def falsy_def)
next
  fix userId owner
  assume q: "q = Some userId \<and> userId \<noteq> [] \<and> castObjectId userId = Some owner"
  let ?owned = "filter (\<lambda>p. post_user p = owner) (posts s)"
  let ?ds = "map (populate_post (users s)) ?owned"
  have run: "getPosts s q = (Response 200 (Message_success_data ''Successfull'' True ?ds), s)"
    using q by (simp add: getPosts_def falsy_def)
  show "\<exists>ds. getPosts s q = (Response 200 (Message_success_data ''Successfull'' True ds), s) \<and>
         list_all2
           (\<lambda>d p. pp_id d = post_id p \<and> pp_title d = title p \<and>
              pp_description d = description p \<and> pp_image d = post_image p \<and>
              pp_likes d = likes p \<and>
              pp_user d =
                (case findUserById owner (users s) of
                   None \<Rightarrow> None
                 | Some u \<Rightarrow> Some \<lparr>view_id = user_id u, view_username = username u,
                                   view_profilePhoto = profilePhoto u\<rparr>) \<and>
              list_all2
                (\<lambda>pc c. pc_id pc = comment_id c \<and> pc_text pc = comment_text c \<and>
                   pc_createdAt pc = createdAt c \<and>
                   pc_user pc =
                     (case findUserById (comment_user c) (users s) of
                        None \<Rightarrow> None
                      | Some u \<Rightarrow> Some \<lparr>view_id = user_id u, view_username = username u,
                                        view_profilePhoto = profilePhoto u\<rparr>))
                (pp_comments d) (comments p))
           ds (filter (\<lambda>p. post_user p = owner) (posts s)) \<and>
         ((\<forall>p \<in> set (posts s). post_user p \<noteq> owner) \<longrightarrow> ds = [])"
  proof (intro exI [of _ ?ds] conjI impI)
    show "getPosts s q = (Response 200 (Message_success_data ''Successfull'' True ?ds), s)"
      by (rule run)
  next
    assume "\<forall>p \<in> set (posts s). post_user p \<noteq> owner"
    then show "?ds = []" by (simp add: filter_empty_conv)
  next
    show "list_all2
           (\<lambda>d p. pp_id d = post_id p \<and> pp_title d = title p \<and>
              pp_description d = description p \<and> pp_image d = post_image p \<and>
              pp_likes d = likes p \<and>
              pp_user d =
                (case findUserById owner (users s) of
                   None \<Rightarrow> None
                 | Some u \<Rightarrow> Some \<lparr>view_id = user_id u, view_username = username u,
                                   view_profilePhoto = profilePhoto u\<rparr>) \<and>
              list_all2
                (\<lambda>pc c. pc_id pc = comment_id c \<and> pc_text pc = comment_text c \<and>
                   pc_createdAt pc = createdAt c \<and>
                   pc_user pc =
                     (case findUserById (comment_user c) (users s) of
                        None \<Rightarrow> None
                      | Some u \<Rightarrow> Some \<lparr>view_id = user_id u, view_username = username u,
                                        view_profilePhoto = profilePhoto u\<rparr>))
                (pp_comments d) (comments p))
           ?ds ?owned"
      unfolding list_all2_map1
    proof (rule list_all2_all_nthI [OF refl], intro conjI)
      fix n assume "n < length ?owned"
      then have own: "post_user (?owned ! n) = owner"
        using nth_mem [of n ?owned] by simp
      let ?p = "?owned ! n"
      show "pp_id (populate_post (users s) ?p) = post_id ?p"
        and "pp_title (populate_post (users s) ?p) = title ?p"
        and "pp_description (populate_post (users s) ?p) = description ?p"
        and "pp_image (populate_post (users s) ?p) = post_image ?p"
        and "pp_likes (populate_post (users s) ?p) = likes ?p"
        by (simp_all add: populate_post_def)
      show "pp_user (populate_post (users s) ?p) =
          (case findUserById owner (users s) of
             None \<Rightarrow> None
           | Some u \<Rightarrow> Some \<lparr>view_id = user_id u, view_username = username u,
                             view_profilePhoto = profilePhoto u\<rparr>)"
        by (simp add: populate_post_def own populate_user_case)
      show "list_all2
                (\<lambda>pc c. pc_id pc = comment_id c \<and> pc_text pc = comment_text c \<and>
                   pc_createdAt pc = createdAt c \<and>
                   pc_user pc =
                     (case findUserById (comment_user c) (users s) of
                        None \<Rightarrow> None
                      | Some u \<Rightarrow> Some \<lparr>view_id = user_id u, view_username = username u,
                                        view_profilePhoto = profilePhoto u\<rparr>))
                (pp_comments (populate_post (users s) ?p)) (comments ?p)"
        using populate_comments_rel [of "users s" "comments ?p"] by (simp add: populate_post_def)
    qed
  qed
qed


theorem getPosts_contract_witness:
  "getPosts ex_store None =
     (Response 400 (Success_error False ''User ID is required''), ex_store) \<and>
   ''abc'' \<noteq> [] \<and> castObjectId ''abc'' = None \<and>
   getPosts ex_store (Some ''abc'') =
     (Response 500 (Success_error False ''Internal Server Error''), ex_store) \<and>
   alice_upper \<noteq> [] \<and> castObjectId alice_upper = Some (ObjectId alice_id) \<and>
   (\<exists>d. getPosts ex_store (Some alice_upper) =
      (Response 200 (Message_success_data ''Successfull'' True [d]), ex_store) \<and>
      pp_id d = ObjectId post1_id \<and>
      pp_user d = Some \<lparr>view_id = ObjectId alice_id, view_username = ''alice'',
         view_profilePhoto = Some ''uploads/profilePhoto-1700000000.png''\<rparr>) \<and>
   bob_id \<noteq> [] \<and> castObjectId bob_id = Some (ObjectId bob_id) \<and>
   getPosts ex_store (Some bob_id) =
     (Response 200 (Message_success_data ''Successfull'' True []), ex_store)"
proof -
  have ne: "alice_upper \<noteq> []" "bob_id \<noteq> []" "''abc'' \<noteq> []" by (simp_all add: ex_defs)
  have owned: "filter (\<lambda>p. post_user p = ObjectId alice_id) (posts ex_store) = [post1]"
    by (simp add: ex_defs)
  have none: "\<forall>p \<in> set (posts ex_store). post_user p \<noteq> ObjectId bob_id"
    by (simp add: ex_defs)
  have owner: "findUserById (ObjectId alice_id) (users ex_store) = Some alice"
    by (simp add: ex_defs findUserById_def)
  have vals: "post_id post1 = ObjectId post1_id" "user_id alice = ObjectId alice_id"
    "username alice = ''alice''"
    "profilePhoto alice = Some ''uploads/profilePhoto-1700000000.png''"
    by (simp_all add: ex_defs)
  have "getPosts ex_store None =
     (Response 400 (Success_error False ''User ID is required''), ex_store)"
    using getPosts_contract [of None ex_store] by simp
  moreover have "getPosts ex_store (Some ''abc'') =
     (Response 500 (Success_error False ''Internal Server Error''), ex_store)"
    using getPosts_contract [of "Some ''abc''" ex_store] castObjectId_abc by simp
  moreover have "\<exists>d. getPosts ex_store (Some alice_upper) =
      (Response 200 (Message_success_data ''Successfull'' True [d]), ex_store) \<and>
      pp_id d = ObjectId post1_id \<and>
      pp_user d = Some \<lparr>view_id = ObjectId alice_id, view_username = ''alice'',
         view_profilePhoto = Some ''uploads/profilePhoto-1700000000.png''\<rparr>"
    using getPosts_contract [of "Some alice_upper" ex_store] ne castObjectId_alice_upper
    by (auto simp: owned owner vals list_all2_Cons2)
  moreover have "getPosts ex_store (Some bob_id) =
     (Response 200 (Message_success_data ''Successfull'' True []), ex_store)"
    using getPosts_contract [of "Some bob_id" ex_store] ne none castObjectId_bob by auto
  ultimately show ?thesis
    using ne castObjectId_abc castObjectId_alice_upper castObjectId_bob by blast
qed

section \<open>Deleting a post\<close>

text \<open>
  Identifiers stay unique in the posts collection as long as the identifier given to a new
  document is fresh, which is what the database guarantees for \<^verbatim>\<open>_id\<close>.
\<close>

lemma unique_ids_deleteOne:
  "distinct (map post_id ps) \<Longrightarrow> distinct (map post_id (snd (deleteOne i ps)))"
proof (induction ps)
  case Nil
  then show ?case by simp
next
  case (Cons q qs)
  show ?case
  proof (cases "post_id q = i")
    case True
    with Cons.prems show ?thesis by simp
  next
    case False
    have "post_id ` set (snd (deleteOne i qs)) \<subseteq> post_id ` set qs"
      using set_deleteOne [of i qs] by blast
    with Cons.prems have "post_id q \<notin> post_id ` set (snd (deleteOne i qs))"
      by auto
    moreover have "distinct (map post_id (snd (deleteOne i qs)))"
      using Cons.IH Cons.prems by simp
    moreover have "snd (deleteOne i (q # qs)) = q # snd (deleteOne i qs)"
      using False by (simp split: prod.splits)
    ultimately show ?thesis by simp
  qed
qed

lemma unique_post_ids_handle:
  assumes uniq: "unique_post_ids s" and fresh: "newId e \<notin> post_id ` set (posts s)"
  shows "unique_post_ids (snd (handle e s r))"
proof (cases r)
  case (GetUser i)
  with uniq show ?thesis by (simp add: getUser_def split: option.splits)
next
  case (Register uname mail pw photo)
  with uniq show ?thesis
    by (simp add: register_def unique_post_ids_def Let_def split: option.splits)
next
  case (Login uname pw)
  with uniq show ?thesis by (simp add: login_def split: option.splits)
next
  case (CreatePost ttl descr uid img)
  with uniq fresh show ?thesis
    by (simp add: createPost_def unique_post_ids_def Let_def split: option.splits)
next
  case (GetPosts q)
  with uniq show ?thesis by (simp add: getPosts_def split: option.splits)
next
  case (DeletePost i)
  show ?thesis
  proof (cases "castObjectId i")
    case None
    with uniq DeletePost show ?thesis by (simp add: deletePost_def)
  next
    case (Some pid)
    then have "posts (snd (deletePost s i)) = snd (deleteOne pid (posts s))"
      by (simp add: deletePost_def split: prod.splits)
    with uniq DeletePost show ?thesis
      by (simp add: unique_post_ids_def unique_ids_deleteOne)
  qed
next
  case (LikePost postId userId)
  with uniq show ?thesis
    by (simp add: likePost_def unique_post_ids_def Let_def map_post_id_savePost
        split: option.splits sum.splits)
next
  case (AddComment postID userId text')
  with uniq show ?thesis
    by (simp add: addComment_def unique_post_ids_def Let_def map_post_id_savePost
        split: option.splits)
qed

lemma deletePost_rejected:
  "castObjectId i = None \<Longrightarrow>
   deletePost s i = (Response 500 (Success_error_message False (CastError i)), s)"
  by (simp add: deletePost_def)

lemma deletePost_None:
  assumes "castObjectId i = Some pid" and "findPostById pid (posts s) = None"
  shows "deletePost s i = (Response 404 (Success_message False ''Post not found''), s)"
proof -
  have "deleteOne pid (posts s) = (0, posts s)"
    using fst_deleteOne [of pid "posts s"] snd_deleteOne_None [OF assms(2)] assms(2)
    by (simp add: prod_eq_iff)
  with assms(1) show ?thesis by (simp add: deletePost_def)
qed

lemma deletePost_Some:
  assumes "castObjectId i = Some pid" and "findPostById pid (posts s) = Some p"
  shows "deletePost s i = (Response 200 (Success_message True ''Post deleted successfully''),
      s\<lparr>posts := remove1 p (posts s)\<rparr>)"
proof -
  have "deleteOne pid (posts s) = (1, remove1 p (posts s))"
    using fst_deleteOne [of pid "posts s"] snd_deleteOne_Some [OF assms(2)] assms(2)
    by (simp add: prod_eq_iff)
  with assms(1) show ?thesis by (simp add: deletePost_def)
qed

text \<open>
  The claim as stated fails for an id that the cast rejects: no document has that id, and
  the answer is 500, not 404.
\<close>

theorem deletePost_rejected_id_counterexample:
  "map (\<lambda>p. toString (post_id p)) (posts ex_store) = [post1_id] \<and> ''abc'' \<noteq> post1_id \<and>
   deletePost ex_store ''abc'' =
     (Response 500 (Success_error_message False (CastError ''abc'')), ex_store)"
  by (simp add: deletePost_def ex_casts ex_store_def post1_def post1_id_def)

text \<open>
  C9 (amended). For every post store and post id: when the cast rejects the id, deletion
  answers 500 and the store is unchanged. When the id casts, deletion answers 404 NotFound
  exactly when no stored post has that id, and then the store is unchanged; otherwise it
  answers 200 and the store is the former one without that document. Consequently,
  identifiers being unique in the collection, deleting a stored post twice in a row answers
  200 and then 404, and the second call changes nothing.
\<close>

theorem deletePost_contract:
  "(castObjectId i = None \<longrightarrow>
      deletePost s i = (Response 500 (Success_error_message False (CastError i)), s)) \<and>
   (\<forall>pid. castObjectId i = Some pid \<longrightarrow>
      (status (fst (deletePost s i)) = 404 \<longleftrightarrow> findPostById pid (posts s) = None) \<and>
      (findPostById pid (posts s) = None \<longrightarrow>
         deletePost s i = (Response 404 (Success_message False ''Post not found''), s)) \<and>
      (\<forall>p. findPostById pid (posts s) = Some p \<longrightarrow>
         deletePost s i = (Response 200 (Success_message True ''Post deleted successfully''),
                           s\<lparr>posts := remove1 p (posts s)\<rparr>) \<and>
         (unique_post_ids s \<longrightarrow>
            findPostById pid (posts (snd (deletePost s i))) = None \<and>
            deletePost (snd (deletePost s i)) i =
              (Response 404 (Success_message False ''Post not found''), snd (deletePost s i)))))"
proof (intro conjI allI impI)
  assume "castObjectId i = None"
  then show "deletePost s i = (Response 500 (Success_error_message False (CastError i)), s)"
    by (rule deletePost_rejected)
next
  fix pid assume c: "castObjectId i = Some pid"
  show "status (fst (deletePost s i)) = 404 \<longleftrightarrow> findPostById pid (posts s) = None"
  proof (cases "findPostById pid (posts s)")
    case None
    then show ?thesis by (simp add: deletePost_None [OF c])
  next
    case (Some p)
    then show ?thesis by (simp add: deletePost_Some [OF c])
  qed
next
  fix pid assume c: "castObjectId i = Some pid"
  assume "findPostById pid (posts s) = None"
  with c show "deletePost s i = (Response 404 (Success_message False ''Post not found''), s)"
    by (rule deletePost_None)
next
  fix pid p assume c: "castObjectId i = Some pid"
  assume found: "findPostById pid (posts s) = Some p"
  with c show "deletePost s i = (Response 200 (Success_message True ''Post deleted successfully''),
                        s\<lparr>posts := remove1 p (posts s)\<rparr>)"
    by (rule deletePost_Some)
next
  fix pid p assume c: "castObjectId i = Some pid"
  assume found: "findPostById pid (posts s) = Some p"
  assume "unique_post_ids s"
  then have "findPostById pid (remove1 p (posts s)) = None"
    using found by (simp add: unique_post_ids_def findPostById_remove1)
  then show gone: "findPostById pid (posts (snd (deletePost s i))) = None"
    by (simp add: deletePost_Some [OF c found])
  show "deletePost (snd (deletePost s i)) i =
           (Response 404 (Success_message False ''Post not found''), snd (deletePost s i))"
    using c gone by (rule deletePost_None)
qed

theorem deletePost_contract_witness:
  "castObjectId ''abc'' = None \<and>
   deletePost ex_store ''abc'' =
     (Response 500 (Success_error_message False (CastError ''abc'')), ex_store) \<and>
   castObjectId post2_id = Some (ObjectId post2_id) \<and>
   findPostById (ObjectId post2_id) (posts ex_store) = None \<and>
   deletePost ex_store post2_id =
     (Response 404 (Success_message False ''Post not found''), ex_store) \<and>
   castObjectId post1_upper = Some (ObjectId post1_id) \<and>
   findPostById (ObjectId post1_id) (posts ex_store) = Some post1 \<and>
   unique_post_ids ex_store \<and>
   deletePost ex_store post1_upper =
     (Response 200 (Success_message True ''Post deleted successfully''), ex_store\<lparr>posts := []\<rparr>) \<and>
   fst (deletePost (snd (deletePost ex_store post1_upper)) post1_upper) =
     Response 404 (Success_message False ''Post not found'')"
proof -
  have missing: "findPostById (ObjectId post2_id) (posts ex_store) = None"
    by (simp add: ex_defs findPostById_def)
  have found: "findPostById (ObjectId post1_id) (posts ex_store) = Some post1"
    by (simp add: ex_defs findPostById_def)
  have uniq: "unique_post_ids ex_store"
    by (simp add: unique_post_ids_def ex_defs)
  have rest: "remove1 post1 (posts ex_store) = []"
    by (simp add: ex_store_def)
  have "deletePost ex_store ''abc'' =
     (Response 500 (Success_error_message False (CastError ''abc'')), ex_store)"
    using deletePost_contract [of "''abc''" ex_store] castObjectId_abc by blast
  moreover have "deletePost ex_store post2_id =
     (Response 404 (Success_message False ''Post not found''), ex_store)"
    using deletePost_contract [of post2_id ex_store] castObjectId_post2 missing by blast
  moreover have "deletePost ex_store post1_upper =
     (Response 200 (Success_message True ''Post deleted successfully''), ex_store\<lparr>posts := []\<rparr>)"
    using deletePost_contract [of post1_upper ex_store] castObjectId_post1_upper found rest
    by simp
  moreover have "fst (deletePost (snd (deletePost ex_store post1_upper)) post1_upper) =
     Response 404 (Success_message False ''Post not found'')"
  proof -
    have "deletePost (snd (deletePost ex_store post1_upper)) post1_upper =
        (Response 404 (Success_message False ''Post not found''),
         snd (deletePost ex_store post1_upper))"
      using deletePost_contract [of post1_upper ex_store] castObjectId_post1_upper found uniq
      by blast
    then show ?thesis by (simp only: fst_conv)
  qed
  ultimately show ?thesis
    using castObjectId_abc castObjectId_post2 castObjectId_post1_upper missing found uniq
    by blast
qed

end
